theory Spec2Isabelle
  imports Complex_Main "HOL-Library.Log_Nat"
begin

section \<open>Data model\<close>

text \<open>
  The application root component \<open>App\<close> keeps its state in React state cells and
  in two browser stores. The types below follow the TypeScript declarations
  (\<open>AuthStatus\<close>, \<open>AccessCode\<close>, \<open>TradingSignal\<close>, \<open>AnalysisResult\<close>).

  A JavaScript \<open>number\<close> is an IEEE-754 double. A finite double is a
  rational, and it is written as that rational: comparisons of finite doubles
  are exact, so \<open>now < c.expiry\<close> is the order of the rationals. Products, sums
  and quotients are rounded to the nearest double, ties to the even significand
  (section on double arithmetic below).
\<close>

datatype AuthStatus = Unauthorized | User | Admin

record AccessCode =
  code :: string
  expiry :: rat
  duration :: rat
  createdAt :: rat

datatype Action = BUY | SELL | NEUTRAL

record TradingSignal =
  pair :: string
  action :: Action
  entry :: string
  tp :: string
  sl :: string
  confidence :: rat
  reasoning :: string

record Technical =
  snr :: string
  ict :: string
  std :: string
  alchemist :: string

record AnalysisResult =
  signal :: TradingSignal
  technical :: Technical
  fundamental :: string
  timestamp :: string

text \<open>
  Rows of the two remote tables, as the code writes and reads them
  (\<open>access_codes{code, duration, created_at, expiry}\<close> and
  \<open>history{data, timestamp}\<close>). The field names carry a prefix because the
  columns share their names with the fields of \<open>AccessCode\<close>.
\<close>

record access_codes_row =
  row_code :: string
  row_duration :: rat
  row_created_at :: rat
  row_expiry :: rat

record history_row =
  row_data :: AnalysisResult
  row_timestamp :: string

text \<open>
  A key of \<open>localStorage\<close>, seen through \<open>getItem\<close> followed by \<open>JSON.parse\<close>:
  the key is absent (or holds the empty string, which the code's truthiness test
  treats alike), holds text that \<open>JSON.parse\<close> rejects, or holds the
  serialisation of a value. \<open>setItem(key, JSON.stringify(v))\<close> stores \<open>Parsed v\<close>.
\<close>

datatype 'a stored = Absent | Unparsable | Parsed 'a

text \<open>
  Calls that leave the process: the analysis service and the remote store. Every
  such call in the source appends one entry to the field \<open>calls\<close> of the state.
\<close>

datatype call =
    AnalyzeChart string
  | SelectAccessCodes
  | SelectHistory
  | InsertHistory history_row
  | DeleteAllHistory
  | InsertAccessCode access_codes_row
  | DeleteAccessCode string

text \<open>
  The state: the React cells of \<open>App\<close> that the handlers read or write, the
  session marker \<open>vertex_session\<close> of \<open>sessionStorage\<close>, the two keys of
  \<open>localStorage\<close>, and the log of outgoing calls. A handler is modelled as one
  atomic step from state to state; what the outside world answers (the current
  time, the random draws, the outcome of a remote call) is an argument of the step.
\<close>

record app_state =
  authStatus :: AuthStatus
  accessCodes :: "AccessCode list"
  loginCode :: string
  adminCode :: string
  image :: "string option"
  isAnalyzing :: bool
  result :: "AnalysisResult option"
  history :: "AnalysisResult list"
  error :: "string option"
  isLoadingData :: bool
  vertex_session :: "string option"
  vertex_history :: "AnalysisResult list stored"
  vertex_access_codes :: "AccessCode list stored"
  calls :: "call list"

definition MASTER_CODE :: string where
  "MASTER_CODE = ''rFOt4cPdfyeFCNrB''"

text \<open>\<open>isSupabaseConfigured\<close> is the constant \<open>true\<close> in \<open>services/supabase.ts\<close>. The
  handlers branch on it, so each of them takes the flag as its first argument and
  both branches are modelled.\<close>

definition isSupabaseConfigured :: bool where
  "isSupabaseConfigured = True"

text \<open>The initial values of the \<open>useState\<close> cells, over given browser stores.\<close>

definition initial_state ::
  "string option \<Rightarrow> AnalysisResult list stored \<Rightarrow> AccessCode list stored \<Rightarrow> app_state" where
  "initial_state session savedHistory savedCodes =
     \<lparr> authStatus = Unauthorized, accessCodes = [], loginCode = [], adminCode = [],
       image = None, isAnalyzing = False, result = None, history = [], error = None,
       isLoadingData = True, vertex_session = session, vertex_history = savedHistory,
       vertex_access_codes = savedCodes, calls = [] \<rparr>"

section \<open>Double arithmetic\<close>

text \<open>
  The arithmetic of \<open>number\<close>: the exact result, rounded to 53 significant bits,
  to nearest with ties to even. \<open>exponent2 x\<close> is the integer \<open>e\<close> with
  \<open>2^e \<le> \<bar>x\<bar> < 2^(e+1)\<close>, so the doubles around \<open>x\<close> are \<open>2^(e-52)\<close> apart.
  Overflow to infinity and the subnormal range (magnitudes of \<open>2^1024\<close> and
  more, or below \<open>2^(-1022)\<close>) are not modelled; the instants and durations of
  this program are far inside the normal range.
\<close>

definition pow2 :: "int \<Rightarrow> rat" where
  "pow2 k = (if 0 \<le> k then 2 ^ nat k else 1 / 2 ^ nat (- k))"

definition exponent2 :: "rat \<Rightarrow> int" where
  "exponent2 x =
     (if 1 \<le> \<bar>x\<bar> then bitlen \<lfloor>\<bar>x\<bar>\<rfloor> - 1 else - bitlen (\<lceil>1 / \<bar>x\<bar>\<rceil> - 1))"

definition round_half_even :: "rat \<Rightarrow> int" where
  "round_half_even q =
     (let f = \<lfloor>q\<rfloor>; r = q - of_int f
      in if r < 1 / 2 then f else if 1 / 2 < r then f + 1 else if even f then f else f + 1)"

definition round_double :: "rat \<Rightarrow> rat" where
  "round_double x =
     (if x = 0 then 0
      else (let ulp = pow2 (exponent2 x - 52)
            in of_int (round_half_even (x / ulp)) * ulp))"

definition double_mul :: "rat \<Rightarrow> rat \<Rightarrow> rat" where
  "double_mul a b = round_double (a * b)"

definition double_add :: "rat \<Rightarrow> rat \<Rightarrow> rat" where
  "double_add a b = round_double (a + b)"

definition double_div :: "rat \<Rightarrow> rat \<Rightarrow> rat" where
  "double_div a b = round_double (a / b)"

section \<open>Startup\<close>

definition row_to_code :: "access_codes_row \<Rightarrow> AccessCode" where
  "row_to_code c =
     \<lparr> code = row_code c, expiry = row_expiry c, duration = row_duration c,
       createdAt = row_created_at c \<rparr>"

text \<open>
  \<open>fetchData\<close>. In the remote branch the two arguments are the answers of the two
  selects: \<open>None\<close> when the answer carries an error or no rows array. In the local
  branch a key that is absent or does not parse leaves the cell as it is.
\<close>

definition fetchData ::
  "bool \<Rightarrow> access_codes_row list option \<Rightarrow> history_row list option \<Rightarrow> app_state \<Rightarrow> app_state" where
  "fetchData remote codes historyData st =
     (let st1 = st\<lparr>isLoadingData := True\<rparr>;
          st2 =
            (if remote then
               (let sa = st1\<lparr>calls := calls st1 @ [SelectAccessCodes]\<rparr>;
                    sb = (case codes of
                            Some rows \<Rightarrow> sa\<lparr>accessCodes := map row_to_code rows\<rparr>
                          | None \<Rightarrow> sa);
                    sc = sb\<lparr>calls := calls sb @ [SelectHistory]\<rparr>
                in (case historyData of
                      Some rows \<Rightarrow> sc\<lparr>history := map row_data rows\<rparr>
                    | None \<Rightarrow> sc))
             else
               (let sa = (case vertex_history st1 of
                            Parsed savedHistory \<Rightarrow> st1\<lparr>history := savedHistory\<rparr>
                          | _ \<Rightarrow> st1)
                in (case vertex_access_codes sa of
                      Parsed savedCodes \<Rightarrow> sa\<lparr>accessCodes := savedCodes\<rparr>
                    | _ \<Rightarrow> sa)))
      in st2\<lparr>isLoadingData := False\<rparr>)"

text \<open>The session check of the mount effect.\<close>

definition checkSession :: "app_state \<Rightarrow> app_state" where
  "checkSession st =
     (if vertex_session st = Some ''admin'' then st\<lparr>authStatus := Admin\<rparr>
      else if vertex_session st = Some ''user'' then st\<lparr>authStatus := User\<rparr>
      else st)"

section \<open>Analysis and history\<close>

text \<open>
  \<open>runAnalysis\<close>. The second argument is what \<open>analyzeChart\<close> does when it is
  called: it returns a result (\<open>Inr\<close>) or throws an error whose \<open>message\<close> may be
  missing (\<open>Inl\<close>). The third argument says whether the remote insert succeeds; the
  remote client reports a failure in the \<open>error\<close> field of the value it resolves
  to, and \<open>runAnalysis\<close> does not read that value.
\<close>

definition runAnalysis ::
  "bool \<Rightarrow> string option + AnalysisResult \<Rightarrow> bool \<Rightarrow> app_state \<Rightarrow> app_state" where
  "runAnalysis remote outcome insert_ok st =
     (case image st of
        None \<Rightarrow> st\<lparr>error := Some ''Please upload a chart image first.''\<rparr>
      | Some img \<Rightarrow>
          if img = [] then st\<lparr>error := Some ''Please upload a chart image first.''\<rparr>
          else
            (let st1 = st\<lparr>isAnalyzing := True, error := None\<rparr>;
                 st2 = st1\<lparr>calls := calls st1 @ [AnalyzeChart img]\<rparr>;
                 st3 =
                   (case outcome of
                      Inr data \<Rightarrow>
                        (let sa = st2\<lparr>result := Some data\<rparr>;
                             sb =
                               (if remote then
                                  sa\<lparr>calls := calls sa @
                                       [InsertHistory
                                          \<lparr>row_data = data, row_timestamp = timestamp data\<rparr>]\<rparr>
                                else
                                  sa\<lparr>vertex_history := Parsed (take 20 (data # history st))\<rparr>)
                         in sb\<lparr>history := take 20 (data # history sb)\<rparr>)
                    | Inl message \<Rightarrow>
                        st2\<lparr>error := Some
                          (case message of
                             None \<Rightarrow> ''Analysis failed. Please try again.''
                           | Some m \<Rightarrow>
                               if m = [] then ''Analysis failed. Please try again.'' else m)\<rparr>)
             in st3\<lparr>isAnalyzing := False\<rparr>))"

definition clearHistory :: "bool \<Rightarrow> bool \<Rightarrow> app_state \<Rightarrow> app_state" where
  "clearHistory remote delete_ok st =
     (if \<not> remote then st\<lparr>history := [], vertex_history := Absent\<rparr>
      else
        (let st1 = st\<lparr>calls := calls st @ [DeleteAllHistory]\<rparr>
         in if delete_ok then st1\<lparr>history := []\<rparr>
            else st1\<lparr>error := Some ''Failed to clear history from database.''\<rparr>))"

section \<open>Access control\<close>

text \<open>
  The two inputs of the login form. The access-code input stores the upper-cased
  text; \<open>toUpperCase\<close> is the platform's \<open>String.prototype.toUpperCase\<close> and is
  taken as an argument. The master-key input stores the text as typed.
\<close>

definition onChange_loginCode :: "(string \<Rightarrow> string) \<Rightarrow> string \<Rightarrow> app_state \<Rightarrow> app_state" where
  "onChange_loginCode toUpperCase v st = st\<lparr>loginCode := toUpperCase v\<rparr>"

definition onChange_adminCode :: "string \<Rightarrow> app_state \<Rightarrow> app_state" where
  "onChange_adminCode v st = st\<lparr>adminCode := v\<rparr>"

definition handleUserLogin :: "rat \<Rightarrow> app_state \<Rightarrow> app_state" where
  "handleUserLogin now st =
     (case find (\<lambda>c. code c = loginCode st \<and> now < expiry c) (accessCodes st) of
        Some validCode \<Rightarrow>
          st\<lparr>authStatus := User, vertex_session := Some ''user'', error := None\<rparr>
      | None \<Rightarrow> st\<lparr>error := Some ''Invalid or Expired Access Code''\<rparr>)"

definition handleAdminLogin :: "app_state \<Rightarrow> app_state" where
  "handleAdminLogin st =
     (if adminCode st = MASTER_CODE then
        st\<lparr>authStatus := Admin, vertex_session := Some ''admin'', error := None\<rparr>
      else st\<lparr>error := Some ''Invalid Master Code''\<rparr>)"

definition logout :: "app_state \<Rightarrow> app_state" where
  "logout st =
     st\<lparr>authStatus := Unauthorized, vertex_session := None, loginCode := [], adminCode := []\<rparr>"

text \<open>
  \<open>generateCode\<close>. \<open>random i\<close> is the value of the \<open>i\<close>-th call of \<open>Math.random\<close>;
  \<open>charAt\<close> is the empty string outside the string. The product
  \<open>days * 24 * 60 * 60 * 1000\<close> associates to the left, and each product and the
  sum with \<open>now\<close> is rounded.
\<close>

definition chars :: string where
  "chars = ''ABCDEFGHIJKLMNOPQRSTUVWXYZ0123456789''"

definition charAt :: "string \<Rightarrow> int \<Rightarrow> string" where
  "charAt s i = (if 0 \<le> i \<and> i < int (length s) then [s ! nat i] else [])"

definition random_code :: "(nat \<Rightarrow> rat) \<Rightarrow> string" where
  "random_code random =
     concat (map (\<lambda>i. charAt chars \<lfloor>double_mul (random i) (of_nat (length chars))\<rfloor>)
               [0..<8])"

definition generateCode ::
  "bool \<Rightarrow> rat \<Rightarrow> rat \<Rightarrow> (nat \<Rightarrow> rat) \<Rightarrow> bool \<Rightarrow> app_state \<Rightarrow> app_state" where
  "generateCode remote days now random insert_ok st =
     (let newCode =
            \<lparr> code = random_code random,
              expiry = double_add now
                         (double_mul (double_mul (double_mul (double_mul days 24) 60) 60) 1000),
              duration = days, createdAt = now \<rparr>
      in if remote then
           (let st1 = st\<lparr>calls := calls st @
                        [InsertAccessCode
                           \<lparr>row_code = code newCode, row_duration = duration newCode,
                            row_created_at = createdAt newCode, row_expiry = expiry newCode\<rparr>]\<rparr>
            in if \<not> insert_ok then st1\<lparr>error := Some ''Failed to save code to database.''\<rparr>
               else st1\<lparr>accessCodes := newCode # accessCodes st1\<rparr>)
         else
           (let st1 = st\<lparr>vertex_access_codes := Parsed (newCode # accessCodes st)\<rparr>
            in st1\<lparr>accessCodes := newCode # accessCodes st1\<rparr>))"

text \<open>
  The durations the admin panel passes to \<open>generateCode\<close>: the \<open>days\<close> of the
  five options \<open>1 HOUR\<close>, \<open>5 HOURS\<close>, \<open>3 DAYS\<close>, \<open>7 DAYS\<close> and \<open>30 DAYS\<close>. The
  first two are the quotients \<open>1/24\<close> and \<open>5/24\<close> as the language computes them.
\<close>

definition option_days :: "rat list" where
  "option_days = [double_div 1 24, double_div 5 24, 3, 7, 30]"

definition deleteCode :: "bool \<Rightarrow> string \<Rightarrow> bool \<Rightarrow> app_state \<Rightarrow> app_state" where
  "deleteCode remote v delete_ok st =
     (if remote then
        (let st1 = st\<lparr>calls := calls st @ [DeleteAccessCode v]\<rparr>
         in if \<not> delete_ok then st1\<lparr>error := Some ''Failed to delete code from database.''\<rparr>
            else st1\<lparr>accessCodes := filter (\<lambda>c. code c \<noteq> v) (accessCodes st1)\<rparr>)
      else
        (let st1 = st\<lparr>vertex_access_codes :=
                        Parsed (filter (\<lambda>c. code c \<noteq> v) (accessCodes st))\<rparr>
         in st1\<lparr>accessCodes := filter (\<lambda>c. code c \<noteq> v) (accessCodes st1)\<rparr>))"

text \<open>
  \<open>handleImageUpload\<close> reads the file, scales it on a canvas and re-encodes it; the
  one state change is \<open>setImage(compressed)\<close>. The argument is the data URL the
  canvas returns.
\<close>

definition handleImageUpload :: "string \<Rightarrow> app_state \<Rightarrow> app_state" where
  "handleImageUpload compressed st = st\<lparr>image := Some compressed\<rparr>"

section \<open>Runs of the history operations\<close>

text \<open>
  A run of the two operations that write the history: an analysis whose external
  call returns \<open>data\<close> (with the outcome of the remote insert), or a call of
  \<open>clearHistory\<close> (with the outcome of the remote delete).
\<close>

datatype history_event = AnalysisSucceeds AnalysisResult bool | ClearHistory bool

fun history_step :: "bool \<Rightarrow> history_event \<Rightarrow> app_state \<Rightarrow> app_state" where
  "history_step remote (AnalysisSucceeds data insert_ok) st =
     runAnalysis remote (Inr data) insert_ok st"
| "history_step remote (ClearHistory delete_ok) st = clearHistory remote delete_ok st"

definition run_events :: "bool \<Rightarrow> history_event list \<Rightarrow> app_state \<Rightarrow> app_state" where
  "run_events remote evs st = fold (history_step remote) evs st"

text \<open>
  The specification's view of such a run: the results delivered since the last
  clear that took effect, oldest first. A clear takes effect in local mode, and
  in remote mode when the remote delete succeeds.
\<close>

fun retained_step :: "bool \<Rightarrow> history_event \<Rightarrow> AnalysisResult list \<Rightarrow> AnalysisResult list" where
  "retained_step remote (AnalysisSucceeds data insert_ok) acc = acc @ [data]"
| "retained_step remote (ClearHistory delete_ok) acc = (if remote \<and> \<not> delete_ok then acc else [])"

definition retained_spec :: "bool \<Rightarrow> history_event list \<Rightarrow> AnalysisResult list" where
  "retained_spec remote evs = fold (retained_step remote) evs []"

section \<open>Views and user actions\<close>

text \<open>
  The component renders one of three views inside \<open>AnimatePresence mode="wait"\<close>,
  chosen by \<open>authStatus\<close>: the login form (key \<open>unauthorized\<close>), the admin panel
  (key \<open>admin\<close>) or the user view (key \<open>user\<close>). In that mode one view is
  mounted at a time: when \<open>authStatus\<close> changes, the mounted view stays until its
  exit animation ends, and only then is the view of the current \<open>authStatus\<close>
  mounted.
\<close>

datatype view = LoginView | AdminView | UserView

definition view_of :: "AuthStatus \<Rightarrow> view" where
  "view_of a = (if a = Unauthorized then LoginView else if a = Admin then AdminView else UserView)"

record screen =
  cells :: app_state
  mounted :: view

text \<open>
  The user actions, each with the answers of the outside world that its handler
  consumes, and the end of an exit animation (\<open>ViewSwap\<close>). An action is possible
  only while the view that binds its handler is mounted: the two inputs and the
  two login buttons in the login form, \<open>logout\<close>, \<open>generateCode\<close> and \<open>deleteCode\<close>
  in the admin panel, \<open>logout\<close> and the analysis and history controls in the
  user view. The inner tabs of the user view and the \<open>disabled\<close> flag of the
  analyse button only remove runs and are left out; \<open>showAdminInput\<close> and
  \<open>activeTab\<close> are not cells of the state above.
\<close>

datatype ui_event =
    TypeLoginCode string
  | ClickEnter rat
  | TypeAdminCode string
  | SubmitAdminCode
  | ClickLogout
  | ClickGenerate rat rat "nat \<Rightarrow> rat" bool
  | ClickDelete string bool
  | ChooseFile string
  | ClickAnalyze "string option + AnalysisResult" bool
  | ClickCloseResult
  | ClickClearHistory bool
  | ClickHistoryItem AnalysisResult
  | ViewSwap

fun ui_step :: "bool \<Rightarrow> (string \<Rightarrow> string) \<Rightarrow> ui_event \<Rightarrow> screen \<Rightarrow> screen option" where
  "ui_step remote toUpperCase (TypeLoginCode v) u =
     (if mounted u = LoginView
      then Some (u\<lparr>cells := onChange_loginCode toUpperCase v (cells u)\<rparr>) else None)"
| "ui_step remote toUpperCase (ClickEnter now) u =
     (if mounted u = LoginView
      then Some (u\<lparr>cells := handleUserLogin now (cells u)\<rparr>) else None)"
| "ui_step remote toUpperCase (TypeAdminCode v) u =
     (if mounted u = LoginView
      then Some (u\<lparr>cells := onChange_adminCode v (cells u)\<rparr>) else None)"
| "ui_step remote toUpperCase SubmitAdminCode u =
     (if mounted u = LoginView
      then Some (u\<lparr>cells := handleAdminLogin (cells u)\<rparr>) else None)"
| "ui_step remote toUpperCase ClickLogout u =
     (if mounted u = AdminView \<or> mounted u = UserView
      then Some (u\<lparr>cells := logout (cells u)\<rparr>) else None)"
| "ui_step remote toUpperCase (ClickGenerate days now random insert_ok) u =
     (if mounted u = AdminView
      then Some (u\<lparr>cells := generateCode remote days now random insert_ok (cells u)\<rparr>)
      else None)"
| "ui_step remote toUpperCase (ClickDelete v delete_ok) u =
     (if mounted u = AdminView
      then Some (u\<lparr>cells := deleteCode remote v delete_ok (cells u)\<rparr>) else None)"
| "ui_step remote toUpperCase (ChooseFile compressed) u =
     (if mounted u = UserView
      then Some (u\<lparr>cells := handleImageUpload compressed (cells u)\<rparr>) else None)"
| "ui_step remote toUpperCase (ClickAnalyze outcome insert_ok) u =
     (if mounted u = UserView
      then Some (u\<lparr>cells := runAnalysis remote outcome insert_ok (cells u)\<rparr>) else None)"
| "ui_step remote toUpperCase ClickCloseResult u =
     (if mounted u = UserView then Some (u\<lparr>cells := (cells u)\<lparr>result := None\<rparr>\<rparr>) else None)"
| "ui_step remote toUpperCase (ClickClearHistory delete_ok) u =
     (if mounted u = UserView
      then Some (u\<lparr>cells := clearHistory remote delete_ok (cells u)\<rparr>) else None)"
| "ui_step remote toUpperCase (ClickHistoryItem item) u =
     (if mounted u = UserView then Some (u\<lparr>cells := (cells u)\<lparr>result := Some item\<rparr>\<rparr>) else None)"
| "ui_step remote toUpperCase ViewSwap u =
     Some (u\<lparr>mounted := view_of (authStatus (cells u))\<rparr>)"

fun ui_run :: "bool \<Rightarrow> (string \<Rightarrow> string) \<Rightarrow> ui_event list \<Rightarrow> screen \<Rightarrow> screen option" where
  "ui_run remote toUpperCase [] u = Some u"
| "ui_run remote toUpperCase (ev # evs) u =
     (case ui_step remote toUpperCase ev u of
        None \<Rightarrow> None
      | Some u' \<Rightarrow> ui_run remote toUpperCase evs u')"

text \<open>
  The first render shows the login form, since \<open>authStatus\<close> starts as
  \<open>unauthorized\<close>; the mount effect then loads the collections and restores the
  session.
\<close>

definition cold_start ::
  "bool \<Rightarrow> access_codes_row list option \<Rightarrow> history_row list option \<Rightarrow>
   string option \<Rightarrow> AnalysisResult list stored \<Rightarrow> AccessCode list stored \<Rightarrow> screen" where
  "cold_start remote codes historyData session savedHistory savedCodes =
     \<lparr> cells = checkSession (fetchData remote codes historyData
                  (initial_state session savedHistory savedCodes)),
       mounted = LoginView \<rparr>"

text \<open>
  The invariant of the runs: while a view with a logout control is mounted over
  an unauthorized session, the session marker is absent and both login inputs
  are empty.
\<close>

definition logout_settled :: "screen \<Rightarrow> bool" where
  "logout_settled u \<longleftrightarrow>
     (mounted u \<noteq> LoginView \<and> authStatus (cells u) = Unauthorized \<longrightarrow>
        vertex_session (cells u) = None \<and> loginCode (cells u) = [] \<and> adminCode (cells u) = [])"

section \<open>Concrete inputs\<close>

text \<open>
  Values on which the model is run in the closed theorems below:
  \<open>toUpperCase\<close> on ASCII text, and an analysis result numbered by its confidence.
\<close>

definition toUpperCase_ascii :: "string \<Rightarrow> string" where
  "toUpperCase_ascii s =
     map (\<lambda>c. if 97 \<le> (of_char c :: nat) \<and> (of_char c :: nat) \<le> 122
               then char_of ((of_char c :: nat) - 32) else c) s"

definition example_result :: "nat \<Rightarrow> AnalysisResult" where
  "example_result n =
     \<lparr> signal = \<lparr> pair = ''EURUSD'', action = BUY, entry = ''1.0850'', tp = ''1.0900'',
                  sl = ''1.0820'', confidence = of_nat n, reasoning = ''MSS above OB'' \<rparr>,
       technical = \<lparr> snr = ''1.0800'', ict = ''FVG'', std = ''low'', alchemist = ''accumulation'' \<rparr>,
       fundamental = ''CPI'', timestamp = ''2026-03-01T10:00:00.000Z'' \<rparr>"

definition example_code :: AccessCode where
  "example_code =
     \<lparr> code = ''AB12CD34'', expiry = 3600000, duration = double_div 1 24, createdAt = 0 \<rparr>"

section \<open>Auxiliary facts\<close>

lemma toUpperCase_ascii_example: "toUpperCase_ascii ''ab12cd34'' = ''AB12CD34''"
  by code_simp

lemma take_20_Cons_take: "take 20 (d # take 20 xs) = take 20 (d # xs)"
  by (simp add: take_Cons')

lemma take_20_Cons_butlast: "length xs = 20 \<Longrightarrow> take 20 (d # xs) = d # butlast xs"
  by (simp add: take_Cons' butlast_conv_take)

lemma image_runAnalysis: "image (runAnalysis remote outcome ok st) = image st"
  by (simp add: runAnalysis_def Let_def split: option.splits sum.splits)

lemma image_clearHistory: "image (clearHistory remote ok st) = image st"
  by (simp add: clearHistory_def Let_def)

lemma image_history_step: "image (history_step remote ev st) = image st"
  by (cases ev) (simp_all add: image_runAnalysis image_clearHistory)

lemma history_runAnalysis_success:
  "image st = Some img \<Longrightarrow> img \<noteq> [] \<Longrightarrow>
   history (runAnalysis remote (Inr d) ok st) = take 20 (d # history st)"
  by (simp add: runAnalysis_def Let_def)

lemma history_clearHistory:
  "history (clearHistory remote ok st) = (if remote \<and> \<not> ok then history st else [])"
  by (simp add: clearHistory_def Let_def)

lemma history_step_retained:
  assumes "image st = Some img" "img \<noteq> []" "history st = take 20 (rev acc)"
  shows "history (history_step remote ev st) = take 20 (rev (retained_step remote ev acc))"
proof (cases ev)
  case (AnalysisSucceeds d ok)
  with assms show ?thesis
    by (simp add: history_runAnalysis_success take_20_Cons_take)
next
  case (ClearHistory ok)
  with assms show ?thesis
    by (simp add: history_clearHistory)
qed

lemma history_fold_retained:
  "image st = Some img \<Longrightarrow> img \<noteq> [] \<Longrightarrow> history st = take 20 (rev acc) \<Longrightarrow>
   history (fold (history_step remote) evs st)
     = take 20 (rev (fold (retained_step remote) evs acc))"
proof (induction evs arbitrary: st acc)
  case Nil
  then show ?case by simp
next
  case (Cons ev evs)
  have "image (history_step remote ev st) = Some img"
    using Cons.prems(1) by (simp add: image_history_step)
  moreover have "history (history_step remote ev st)
      = take 20 (rev (retained_step remote ev acc))"
    using Cons.prems by (rule history_step_retained)
  ultimately show ?case
    using Cons.IH Cons.prems(2) by simp
qed

lemma image_run_events: "image (run_events remote evs st) = image st"
  unfolding run_events_def
  by (induction evs arbitrary: st) (simp_all add: image_history_step)

lemma find_None_conv: "find P xs = None \<longleftrightarrow> \<not> (\<exists>x\<in>set xs. P x)"
  by (auto simp: find_None_iff)

lemma find_Some_ex: "find P xs = Some x \<Longrightarrow> \<exists>x\<in>set xs. P x"
  by (auto simp: find_Some_iff)

section \<open>Login with an access code\<close>

text \<open>
  C1. Let the access-code input hold the upper-cased submitted text \<open>s\<close> and let
  the session be unauthorized. \<open>handleUserLogin\<close> at time \<open>t\<close> moves the session to
  \<open>User\<close> and writes the session marker \<open>user\<close> exactly when some code \<open>c\<close> of
  the collection has \<open>code c\<close> equal to the upper-cased \<open>s\<close> and \<open>t < expiry c\<close>.
  In every other case the session stays unauthorized and the only cell that
  changes is the error message, which becomes "Invalid or Expired Access Code".
\<close>

theorem handleUserLogin_iff_valid_code:
  assumes "authStatus st = Unauthorized"
  shows "((authStatus (handleUserLogin t (onChange_loginCode toUpperCase s st)) = User
            \<and> vertex_session (handleUserLogin t (onChange_loginCode toUpperCase s st)) = Some ''user'')
          \<longleftrightarrow> (\<exists>c \<in> set (accessCodes st). code c = toUpperCase s \<and> t < expiry c))
       \<and> (\<not> (\<exists>c \<in> set (accessCodes st). code c = toUpperCase s \<and> t < expiry c) \<longrightarrow>
            handleUserLogin t (onChange_loginCode toUpperCase s st)
              = (onChange_loginCode toUpperCase s st)\<lparr>error := Some ''Invalid or Expired Access Code''\<rparr>
            \<and> authStatus (handleUserLogin t (onChange_loginCode toUpperCase s st)) = Unauthorized)"
proof (cases "find (\<lambda>c. code c = toUpperCase s \<and> t < expiry c) (accessCodes st)")
  case None
  then have "\<not> (\<exists>c \<in> set (accessCodes st). code c = toUpperCase s \<and> t < expiry c)"
    by (simp add: find_None_conv)
  with None assms show ?thesis
    by (simp add: handleUserLogin_def onChange_loginCode_def)
next
  case (Some c)
  then have "\<exists>c \<in> set (accessCodes st). code c = toUpperCase s \<and> t < expiry c"
    by (rule find_Some_ex)
  with Some show ?thesis
    by (simp add: handleUserLogin_def onChange_loginCode_def)
qed

theorem handleUserLogin_iff_valid_code_witness:
  "authStatus ((initial_state None Absent Absent)\<lparr>accessCodes := [example_code]\<rparr>) = Unauthorized
   \<and> authStatus (handleUserLogin 1000000 (onChange_loginCode toUpperCase_ascii ''ab12cd34''
        ((initial_state None Absent Absent)\<lparr>accessCodes := [example_code]\<rparr>))) = User
   \<and> vertex_session (handleUserLogin 1000000 (onChange_loginCode toUpperCase_ascii ''ab12cd34''
        ((initial_state None Absent Absent)\<lparr>accessCodes := [example_code]\<rparr>))) = Some ''user''
   \<and> authStatus (handleUserLogin 3700000 (onChange_loginCode toUpperCase_ascii ''ab12cd34''
        ((initial_state None Absent Absent)\<lparr>accessCodes := [example_code]\<rparr>))) = Unauthorized
   \<and> error (handleUserLogin 3700000 (onChange_loginCode toUpperCase_ascii ''ab12cd34''
        ((initial_state None Absent Absent)\<lparr>accessCodes := [example_code]\<rparr>)))
        = Some ''Invalid or Expired Access Code''"
proof -
  let ?st = "(initial_state None Absent Absent)\<lparr>accessCodes := [example_code]\<rparr>"
  have u: "authStatus ?st = Unauthorized"
    by (simp add: initial_state_def)
  have early: "\<exists>c \<in> set (accessCodes ?st).
      code c = toUpperCase_ascii ''ab12cd34'' \<and> 1000000 < expiry c"
    by (simp add: example_code_def toUpperCase_ascii_example)
  have late: "\<not> (\<exists>c \<in> set (accessCodes ?st).
      code c = toUpperCase_ascii ''ab12cd34'' \<and> 3700000 < expiry c)"
    by (simp add: example_code_def)
  from handleUserLogin_iff_valid_code
         [OF u, where t = 1000000 and toUpperCase = toUpperCase_ascii and s = "''ab12cd34''"] early
  have a: "authStatus (handleUserLogin 1000000
              (onChange_loginCode toUpperCase_ascii ''ab12cd34'' ?st)) = User
         \<and> vertex_session (handleUserLogin 1000000
              (onChange_loginCode toUpperCase_ascii ''ab12cd34'' ?st)) = Some ''user''"
    by blast
  from handleUserLogin_iff_valid_code
         [OF u, where t = 3700000 and toUpperCase = toUpperCase_ascii and s = "''ab12cd34''"] late
  have b: "handleUserLogin 3700000 (onChange_loginCode toUpperCase_ascii ''ab12cd34'' ?st)
             = (onChange_loginCode toUpperCase_ascii ''ab12cd34'' ?st)
                 \<lparr>error := Some ''Invalid or Expired Access Code''\<rparr>
         \<and> authStatus (handleUserLogin 3700000
              (onChange_loginCode toUpperCase_ascii ''ab12cd34'' ?st)) = Unauthorized"
    by blast
  from b have c: "error (handleUserLogin 3700000
      (onChange_loginCode toUpperCase_ascii ''ab12cd34'' ?st))
        = Some ''Invalid or Expired Access Code''"
    by simp
  from u a b c show ?thesis by blast
qed

section \<open>The history list\<close>

text \<open>
  C2. Start from an empty history with an image staged, and run any sequence of
  successful analyses and \<open>clearHistory\<close> calls. The history then has at most 20
  entries, and it is the list of results delivered since the last clear that took
  effect, newest first, cut to its first 20. When it holds 20 entries, one more
  successful analysis puts the new result in front and drops the last entry,
  which is the oldest.
\<close>

theorem history_capped_newest_first:
  assumes "history st = []" and "image st = Some img" and "img \<noteq> []"
  shows "length (history (run_events remote evs st)) \<le> 20
       \<and> history (run_events remote evs st) = take 20 (rev (retained_spec remote evs))
       \<and> (length (history (run_events remote evs st)) = 20 \<longrightarrow>
            history (run_events remote (evs @ [AnalysisSucceeds d ok]) st)
              = d # butlast (history (run_events remote evs st)))"
proof -
  have eq: "history (run_events remote evs st) = take 20 (rev (retained_spec remote evs))"
    unfolding run_events_def retained_spec_def
    using assms by (intro history_fold_retained) simp_all
  have len: "length (history (run_events remote evs st)) \<le> 20"
    by (simp add: eq)
  have step: "history (run_events remote (evs @ [AnalysisSucceeds d ok]) st)
      = take 20 (d # history (run_events remote evs st))"
    using assms(2,3)
    by (simp add: run_events_def history_runAnalysis_success
                  image_run_events [unfolded run_events_def])
  have drop: "history (run_events remote (evs @ [AnalysisSucceeds d ok]) st)
      = d # butlast (history (run_events remote evs st))"
    if "length (history (run_events remote evs st)) = 20"
    using step take_20_Cons_butlast [OF that] by simp
  from len eq drop show ?thesis by blast
qed

lemma example_run_20:
  "history (run_events True (map (\<lambda>n. AnalysisSucceeds (example_result n) True) [0..<20])
      (handleImageUpload ''data:image/jpeg;base64,AAAA'' (initial_state None Absent Absent)))
   = map example_result (rev [0..<20])"
  by code_simp

lemma example_butlast: "butlast (map example_result (rev [0..<20])) = map example_result (rev [1..<20])"
  by code_simp

lemma example_21: "example_result 20 # map example_result (rev [1..<20]) = map example_result (rev [1..<21])"
  by code_simp

theorem history_capped_newest_first_witness:
  "history (run_events True
      (map (\<lambda>n. AnalysisSucceeds (example_result n) True) [0..<20]
         @ [AnalysisSucceeds (example_result 20) True])
      (handleImageUpload ''data:image/jpeg;base64,AAAA'' (initial_state None Absent Absent)))
   = map example_result (rev [1..<21])"
proof -
  let ?st = "handleImageUpload ''data:image/jpeg;base64,AAAA'' (initial_state None Absent Absent)"
  let ?evs = "map (\<lambda>n. AnalysisSucceeds (example_result n) True) [0..<20]"
  have h: "history ?st = []" and i: "image ?st = Some ''data:image/jpeg;base64,AAAA''"
    and n: "''data:image/jpeg;base64,AAAA'' \<noteq> []"
    by (simp_all add: handleImageUpload_def initial_state_def)
  have l: "length (history (run_events True ?evs ?st)) = 20"
    by (simp add: example_run_20)
  from history_capped_newest_first [OF h i n, of True ?evs "example_result 20" True] l
  have "history (run_events True (?evs @ [AnalysisSucceeds (example_result 20) True]) ?st)
      = example_result 20 # butlast (history (run_events True ?evs ?st))"
    by blast
  then show ?thesis
    by (simp only: example_run_20 example_butlast example_21)
qed

section \<open>The master key\<close>

text \<open>
  C5. With the master-key input holding the submitted text \<open>s\<close>, \<open>handleAdminLogin\<close>
  moves an unauthorized session to \<open>Admin\<close> and writes the session marker
  \<open>admin\<close> exactly when \<open>s\<close> is the compiled-in \<open>MASTER_CODE\<close>. For any other
  \<open>s\<close> the only cell that changes is the error message, which becomes
  "Invalid Master Code".
\<close>

theorem handleAdminLogin_iff_master:
  assumes "authStatus st = Unauthorized"
  shows "((authStatus (handleAdminLogin (onChange_adminCode s st)) = Admin
            \<and> vertex_session (handleAdminLogin (onChange_adminCode s st)) = Some ''admin'')
          \<longleftrightarrow> s = MASTER_CODE)
       \<and> (s \<noteq> MASTER_CODE \<longrightarrow>
            handleAdminLogin (onChange_adminCode s st)
              = (onChange_adminCode s st)\<lparr>error := Some ''Invalid Master Code''\<rparr>)"
  using assms by (simp add: handleAdminLogin_def onChange_adminCode_def)

theorem handleAdminLogin_iff_master_witness:
  "authStatus (initial_state None Absent Absent) = Unauthorized
   \<and> authStatus (handleAdminLogin
        (onChange_adminCode ''rFOt4cPdfyeFCNrB'' (initial_state None Absent Absent))) = Admin
   \<and> vertex_session (handleAdminLogin
        (onChange_adminCode ''rFOt4cPdfyeFCNrB'' (initial_state None Absent Absent))) = Some ''admin''
   \<and> ''rfot4cpdfyefcnrb'' \<noteq> MASTER_CODE
   \<and> handleAdminLogin (onChange_adminCode ''rfot4cpdfyefcnrb'' (initial_state None Absent Absent))
        = (onChange_adminCode ''rfot4cpdfyefcnrb'' (initial_state None Absent Absent))
            \<lparr>error := Some ''Invalid Master Code''\<rparr>"
proof -
  have u: "authStatus (initial_state None Absent Absent) = Unauthorized"
    by (simp add: initial_state_def)
  have m: "''rFOt4cPdfyeFCNrB'' = MASTER_CODE" and w: "''rfot4cpdfyefcnrb'' \<noteq> MASTER_CODE"
    by (simp_all add: MASTER_CODE_def)
  from handleAdminLogin_iff_master [OF u, of "''rFOt4cPdfyeFCNrB''"] m
  have a: "authStatus (handleAdminLogin
              (onChange_adminCode ''rFOt4cPdfyeFCNrB'' (initial_state None Absent Absent))) = Admin
         \<and> vertex_session (handleAdminLogin
              (onChange_adminCode ''rFOt4cPdfyeFCNrB'' (initial_state None Absent Absent)))
             = Some ''admin''"
    by blast
  from handleAdminLogin_iff_master [OF u, of "''rfot4cpdfyefcnrb''"] w
  have b: "handleAdminLogin
             (onChange_adminCode ''rfot4cpdfyefcnrb'' (initial_state None Absent Absent))
        = (onChange_adminCode ''rfot4cpdfyefcnrb'' (initial_state None Absent Absent))
            \<lparr>error := Some ''Invalid Master Code''\<rparr>"
    by blast
  from u a w b show ?thesis by blast
qed

section \<open>Persistence failures\<close>

text \<open>
  C3. In remote-configured mode (the value of \<open>isSupabaseConfigured\<close>), in every
  state: when the remote insert of \<open>generateCode\<close> fails, or the remote delete of
  \<open>deleteCode\<close> fails, the access-code collection keeps its value from before the
  call and an error message is set. With an image staged, a successful analysis
  puts its result in front of the history (cut to 20 entries) both when the
  remote history insert fails and when it succeeds.
\<close>

theorem persistence_failure_asymmetry:
  "accessCodes (generateCode isSupabaseConfigured days now random False st) = accessCodes st
   \<and> error (generateCode isSupabaseConfigured days now random False st)
       = Some ''Failed to save code to database.''
   \<and> accessCodes (deleteCode isSupabaseConfigured v False st) = accessCodes st
   \<and> error (deleteCode isSupabaseConfigured v False st)
       = Some ''Failed to delete code from database.''
   \<and> (image st = Some img \<and> img \<noteq> [] \<longrightarrow>
        history (runAnalysis isSupabaseConfigured (Inr data) False st)
          = data # take 19 (history st)
      \<and> history (runAnalysis isSupabaseConfigured (Inr data) True st)
          = data # take 19 (history st))"
proof -
  have g: "accessCodes (generateCode True days now random False st) = accessCodes st
       \<and> error (generateCode True days now random False st)
           = Some ''Failed to save code to database.''"
    by (simp add: generateCode_def Let_def)
  have d: "accessCodes (deleteCode True v False st) = accessCodes st
       \<and> error (deleteCode True v False st) = Some ''Failed to delete code from database.''"
    by (simp add: deleteCode_def Let_def)
  have r: "history (runAnalysis True (Inr data) ok st) = data # take 19 (history st)"
    if "image st = Some img" and "img \<noteq> []" for ok
    using that by (simp add: history_runAnalysis_success take_Cons')
  from g d r show ?thesis
    by (simp only: isSupabaseConfigured_def) blast
qed

theorem persistence_failure_asymmetry_witness:
  "image ((initial_state (Some ''admin'') Absent Absent)
            \<lparr>authStatus := Admin, accessCodes := [example_code]\<rparr>) = None
   \<and> accessCodes (generateCode isSupabaseConfigured 7 1000 (\<lambda>i. 0) False
        ((initial_state (Some ''admin'') Absent Absent)
           \<lparr>authStatus := Admin, accessCodes := [example_code]\<rparr>)) = [example_code]
   \<and> error (generateCode isSupabaseConfigured 7 1000 (\<lambda>i. 0) False
        ((initial_state (Some ''admin'') Absent Absent)
           \<lparr>authStatus := Admin, accessCodes := [example_code]\<rparr>))
       = Some ''Failed to save code to database.''
   \<and> accessCodes (deleteCode isSupabaseConfigured ''AB12CD34'' False
        ((initial_state (Some ''admin'') Absent Absent)
           \<lparr>authStatus := Admin, accessCodes := [example_code]\<rparr>)) = [example_code]
   \<and> error (deleteCode isSupabaseConfigured ''AB12CD34'' False
        ((initial_state (Some ''admin'') Absent Absent)
           \<lparr>authStatus := Admin, accessCodes := [example_code]\<rparr>))
       = Some ''Failed to delete code from database.''
   \<and> image ((initial_state (Some ''user'') Absent Absent)
            \<lparr>authStatus := User, image := Some ''data:image/jpeg;base64,AAAA''\<rparr>)
       = Some ''data:image/jpeg;base64,AAAA''
   \<and> history (runAnalysis isSupabaseConfigured (Inr (example_result 1)) False
        ((initial_state (Some ''user'') Absent Absent)
           \<lparr>authStatus := User, image := Some ''data:image/jpeg;base64,AAAA''\<rparr>))
       = [example_result 1]"
proof -
  let ?admin = "(initial_state (Some ''admin'') Absent Absent)
           \<lparr>authStatus := Admin, accessCodes := [example_code]\<rparr>"
  let ?user = "(initial_state (Some ''user'') Absent Absent)
           \<lparr>authStatus := User, image := Some ''data:image/jpeg;base64,AAAA''\<rparr>"
  have n: "image ?admin = None" and a: "accessCodes ?admin = [example_code]"
    by (simp_all add: initial_state_def)
  have i: "image ?user = Some ''data:image/jpeg;base64,AAAA''
      \<and> ''data:image/jpeg;base64,AAAA'' \<noteq> []" and h: "history ?user = []"
    by (simp_all add: initial_state_def)
  from persistence_failure_asymmetry
         [of 7 1000 "\<lambda>i. 0" ?admin "''AB12CD34''" "''data:image/jpeg;base64,AAAA''"] a
  have x: "accessCodes (generateCode isSupabaseConfigured 7 1000 (\<lambda>i. 0) False ?admin)
        = [example_code]
      \<and> error (generateCode isSupabaseConfigured 7 1000 (\<lambda>i. 0) False ?admin)
        = Some ''Failed to save code to database.''
      \<and> accessCodes (deleteCode isSupabaseConfigured ''AB12CD34'' False ?admin) = [example_code]
      \<and> error (deleteCode isSupabaseConfigured ''AB12CD34'' False ?admin)
        = Some ''Failed to delete code from database.''"
    by simp
  from persistence_failure_asymmetry
         [of 7 1000 "\<lambda>i. 0" ?user "''AB12CD34''" "''data:image/jpeg;base64,AAAA''"
             "example_result 1"] i h
  have y: "history (runAnalysis isSupabaseConfigured (Inr (example_result 1)) False ?user)
        = [example_result 1]"
    by simp
  from n x i y show ?thesis by blast
qed

section \<open>The expiry of a generated code\<close>

lemma round_half_even_of_int: "round_half_even (of_int k) = k"
  by (simp add: round_half_even_def)

lemma bitlen_le_53:
  assumes "0 < n" and "n < 2 ^ 53"
  shows "bitlen n \<le> 53"
proof (rule ccontr)
  assume "\<not> bitlen n \<le> 53"
  then have "53 \<le> nat (bitlen n - 1)" by simp
  then have "(2::int) ^ 53 \<le> 2 ^ nat (bitlen n - 1)"
    by (rule power_increasing) simp
  also have "\<dots> \<le> n" using bitlen_bounds [OF assms(1)] by simp
  finally show False using assms(2) by simp
qed

lemma round_double_of_int:
  assumes "\<bar>n\<bar> < 2 ^ 53"
  shows "round_double (of_int n) = of_int n"
proof (cases "n = 0")
  case True
  then show ?thesis by (simp add: round_double_def)
next
  case False
  then have pos: "0 < \<bar>n\<bar>" by simp
  from pos have "1 \<le> \<bar>n\<bar>" by simp
  then have "(1::rat) \<le> of_int \<bar>n\<bar>" by (simp only: of_int_1_le_iff)
  then have abs1: "(1::rat) \<le> \<bar>of_int n\<bar>" by simp
  have fl: "\<lfloor>\<bar>of_int n :: rat\<bar>\<rfloor> = \<bar>n\<bar>"
    by (metis floor_of_int of_int_abs)
  have e: "exponent2 (of_int n) = bitlen \<bar>n\<bar> - 1"
    using abs1 by (simp add: exponent2_def fl)
  define m where "m = nat (53 - bitlen \<bar>n\<bar>)"
  have le: "bitlen \<bar>n\<bar> \<le> 53" using pos assms by (rule bitlen_le_53)
  have ulp: "pow2 (exponent2 (of_int n) - 52) = 1 / 2 ^ m"
  proof (cases "bitlen \<bar>n\<bar> = 53")
    case True
    then show ?thesis by (simp add: e pow2_def m_def)
  next
    case False
    with le have "bitlen \<bar>n\<bar> - 1 - 52 < 0" by simp
    moreover have "nat (- (bitlen \<bar>n\<bar> - 1 - 52)) = m" by (simp add: m_def)
    ultimately show ?thesis by (simp add: e pow2_def)
  qed
  have q: "(of_int n :: rat) / (1 / 2 ^ m) = of_int (n * 2 ^ m)" by simp
  have "round_double (of_int n) = of_int (round_half_even (of_int (n * 2 ^ m))) * (1 / 2 ^ m)"
    using False by (simp only: round_double_def ulp q Let_def of_int_eq_0_iff if_False)
  also have "\<dots> = of_int (n * 2 ^ m) * (1 / 2 ^ m)"
    by (simp only: round_half_even_of_int)
  also have "\<dots> = of_int n" by simp
  finally show ?thesis .
qed

lemma double_mul_of_int:
  "\<bar>a * b\<bar> < 2 ^ 53 \<Longrightarrow> double_mul (of_int a) (of_int b) = of_int (a * b)"
  using round_double_of_int [of "a * b"] by (simp add: double_mul_def)

lemma double_add_of_int:
  "\<bar>a + b\<bar> < 2 ^ 53 \<Longrightarrow> double_add (of_int a) (of_int b) = of_int (a + b)"
  using round_double_of_int [of "a + b"] by (simp add: double_add_def)

lemma whole_days_product:
  assumes "n * 86400000 < 2 ^ 53"
  shows "double_mul (double_mul (double_mul (double_mul (of_nat n) 24) 60) 60) 1000
           = of_nat (n * 86400000)"
    and "double_mul (of_nat n) 86400000 = of_nat (n * 86400000)"
proof -
  let ?n = "int n"
  from assms have b: "?n * 86400000 < 2 ^ 53"
    by (metis of_nat_less_numeral_power_cancel_iff of_nat_mult of_nat_numeral)
  have n0: "0 \<le> ?n" by simp
  from b n0 have b1: "\<bar>?n * 24\<bar> < 2 ^ 53" and b2: "\<bar>?n * 24 * 60\<bar> < 2 ^ 53"
    and b3: "\<bar>?n * 24 * 60 * 60\<bar> < 2 ^ 53" and b4: "\<bar>?n * 24 * 60 * 60 * 1000\<bar> < 2 ^ 53"
    and b5: "\<bar>?n * 86400000\<bar> < 2 ^ 53"
    by simp_all
  have "double_mul (of_nat n) 24 = of_int (?n * 24)"
    using double_mul_of_int [OF b1] by simp
  moreover have "double_mul (of_int (?n * 24)) 60 = of_int (?n * 24 * 60)"
    using double_mul_of_int [OF b2] by simp
  moreover have "double_mul (of_int (?n * 24 * 60)) 60 = of_int (?n * 24 * 60 * 60)"
    using double_mul_of_int [OF b3] by simp
  moreover have "double_mul (of_int (?n * 24 * 60 * 60)) 1000 = of_int (?n * 24 * 60 * 60 * 1000)"
    using double_mul_of_int [OF b4] by simp
  ultimately show "double_mul (double_mul (double_mul (double_mul (of_nat n) 24) 60) 60) 1000
           = of_nat (n * 86400000)"
    by simp
  show "double_mul (of_nat n) 86400000 = of_nat (n * 86400000)"
    using double_mul_of_int [OF b5] by simp
qed

lemma option_days_product:
  assumes "days \<in> set option_days"
  shows "double_mul (double_mul (double_mul (double_mul days 24) 60) 60) 1000
           = double_mul days 86400000"
proof -
  have 1: "double_mul (double_mul (double_mul (double_mul (double_div 1 24) 24) 60) 60) 1000
           = double_mul (double_div 1 24) 86400000" by code_simp
  have 2: "double_mul (double_mul (double_mul (double_mul (double_div 5 24) 24) 60) 60) 1000
           = double_mul (double_div 5 24) 86400000" by code_simp
  have 3: "double_mul (double_mul (double_mul (double_mul 3 24) 60) 60) 1000
           = double_mul 3 86400000" by code_simp
  have 4: "double_mul (double_mul (double_mul (double_mul 7 24) 60) 60) 1000
           = double_mul 7 86400000" by code_simp
  have 5: "double_mul (double_mul (double_mul (double_mul 30 24) 60) 60) 1000
           = double_mul 30 86400000" by code_simp
  from assms have "days = double_div 1 24 \<or> days = double_div 5 24 \<or> days = 3 \<or> days = 7 \<or> days = 30"
    by (simp add: option_days_def)
  with 1 2 3 4 5 show ?thesis by blast
qed

lemma accessCodes_generateCode:
  "accessCodes (generateCode remote days now random True st)
     = \<lparr> code = random_code random,
         expiry = double_add now
                    (double_mul (double_mul (double_mul (double_mul days 24) 60) 60) 1000),
         duration = days, createdAt = now \<rparr> # accessCodes st"
  by (simp add: generateCode_def Let_def)


lemma whole_days_expiry_exact:
  fixes n m :: nat
  assumes "m + n * 86400000 < 2 ^ 53"
  shows "double_add (of_nat m)
           (double_mul (double_mul (double_mul (double_mul (of_nat n) 24) 60) 60) 1000)
         = of_nat m + of_nat n * 86400000"
proof -
  from assms have n: "n * 86400000 < 2 ^ 53" by simp
  have "int m + int (n * 86400000) < 2 ^ 53"
    using assms by (metis of_nat_add of_nat_less_numeral_power_cancel_iff)
  then have b: "\<bar>int m + int (n * 86400000)\<bar> < 2 ^ 53" by simp
  have "double_add (of_nat m) (of_nat (n * 86400000)) = of_int (int m + int (n * 86400000))"
    using double_add_of_int [OF b] by simp
  then show ?thesis
    by (simp add: whole_days_product(1) [OF n])
qed

text \<open>
  C4. For every duration that \<open>generateCode\<close> is called with (the five options of
  the admin panel, two of them fractional) and for every whole number of days
  \<open>d\<close> with \<open>d * 86400000 < 2^53\<close>, the created code is put in front of the
  collection with \<open>createdAt\<close> the captured instant \<open>now\<close>, \<open>duration\<close> the duration
  passed, and \<open>expiry\<close> equal to \<open>createdAt + duration * 86400000\<close> as the
  language evaluates that expression, at every instant. For a whole number of
  days and an instant of whole milliseconds with \<open>now + d * 86400000 < 2^53\<close> no
  rounding occurs and the equation also holds exactly.
\<close>

theorem generateCode_expiry:
  assumes "days \<in> set option_days \<or> (\<exists>n::nat. days = of_nat n \<and> n * 86400000 < 2 ^ 53)"
  shows "\<exists>c. accessCodes (generateCode remote days now random True st) = c # accessCodes st
           \<and> createdAt c = now \<and> duration c = days
           \<and> expiry c = double_add (createdAt c) (double_mul (duration c) 86400000)
           \<and> ((\<exists>n m::nat. days = of_nat n \<and> now = of_nat m \<and> m + n * 86400000 < 2 ^ 53)
                \<longrightarrow> expiry c = createdAt c + duration c * 86400000)"
proof -
  let ?p = "double_mul (double_mul (double_mul (double_mul days 24) 60) 60) 1000"
  let ?c = "\<lparr> code = random_code random, expiry = double_add now ?p,
              duration = days, createdAt = now \<rparr>"
  have acc: "accessCodes (generateCode remote days now random True st) = ?c # accessCodes st"
    by (rule accessCodes_generateCode)
  have prod: "?p = double_mul days 86400000"
  proof -
    from assms consider "days \<in> set option_days"
      | n :: nat where "days = of_nat n" "n * 86400000 < 2 ^ 53"
      by blast
    then show ?thesis
    proof cases
      case 1
      then show ?thesis by (rule option_days_product)
    next
      case 2
      then show ?thesis by (simp add: whole_days_product)
    qed
  qed
  have exact: "double_add now ?p = now + days * 86400000"
    if "\<exists>n m::nat. days = of_nat n \<and> now = of_nat m \<and> m + n * 86400000 < 2 ^ 53"
  proof -
    from that obtain n m :: nat
      where "days = of_nat n" "now = of_nat m" "m + n * 86400000 < 2 ^ 53"
      by blast
    then show ?thesis by (simp add: whole_days_expiry_exact)
  qed
  from acc prod exact show ?thesis by simp
qed

lemma example_expiry_hour:
  "double_add 1704542034671 (double_mul (double_div 1 24) 86400000) = 1704545634671"
  by code_simp

theorem generateCode_expiry_witness:
  "double_div 1 24 \<in> set option_days
   \<and> (\<exists>c. accessCodes (generateCode True (double_div 1 24) 1704542034671 (\<lambda>i. 0) True
             (initial_state None Absent Absent)) = [c]
          \<and> createdAt c = 1704542034671 \<and> expiry c = 1704545634671)
   \<and> (\<exists>c. accessCodes (generateCode True 7 1704542034671 (\<lambda>i. 0) True
             (initial_state None Absent Absent)) = [c]
          \<and> createdAt c = 1704542034671 \<and> expiry c = 1704542034671 + 7 * 86400000)"
proof -
  let ?st = "initial_state None Absent Absent"
  have e: "accessCodes ?st = []" by (simp add: initial_state_def)
  have h: "double_div 1 24 \<in> set option_days" by (simp add: option_days_def)
  then have h': "double_div 1 24 \<in> set option_days
      \<or> (\<exists>n::nat. double_div 1 24 = of_nat n \<and> n * 86400000 < 2 ^ 53)" ..
  from generateCode_expiry [OF h', of True 1704542034671 "\<lambda>i. 0" ?st]
  have a: "\<exists>c. accessCodes (generateCode True (double_div 1 24) 1704542034671 (\<lambda>i. 0) True ?st) = [c]
          \<and> createdAt c = 1704542034671 \<and> expiry c = 1704545634671"
    by (auto simp: e example_expiry_hour)
  have "(7::rat) = of_nat 7 \<and> (7::nat) * 86400000 < 2 ^ 53" by simp
  then have w: "(7::rat) \<in> set option_days \<or> (\<exists>n::nat. (7::rat) = of_nat n \<and> n * 86400000 < 2 ^ 53)"
    by blast
  have x: "\<exists>n m::nat. (7::rat) = of_nat n \<and> (1704542034671::rat) = of_nat m
      \<and> m + n * 86400000 < 2 ^ 53"
    by (rule exI [of _ 7], rule exI [of _ 1704542034671]) simp
  from generateCode_expiry [OF w, of True 1704542034671 "\<lambda>i. 0" ?st] x
  have b: "\<exists>c. accessCodes (generateCode True 7 1704542034671 (\<lambda>i. 0) True ?st) = [c]
          \<and> createdAt c = 1704542034671 \<and> expiry c = 1704542034671 + 7 * 86400000"
    by (auto simp: e)
  from h a b show ?thesis by blast
qed

text \<open>
  The hypothesis on the duration is needed. At a fractional duration that the
  panel does not offer, the four roundings of the code and the single rounding
  of \<open>duration * 86400000\<close> can end one unit in the last place apart.
\<close>

lemma expiry_rounding_other_duration:
  "double_add 1704542034671
     (double_mul (double_mul (double_mul (double_mul
        (1659695980881597 / 70368744177664) 24) 60) 60) 1000)
   \<noteq> double_add 1704542034671 (double_mul (1659695980881597 / 70368744177664) 86400000)"
  by code_simp

section \<open>Analysis without an image\<close>

text \<open>
  C6. When no image is staged (the cell is \<open>null\<close>, or the empty string, which
  the test \<open>!image\<close> treats alike), \<open>runAnalysis\<close> changes nothing but the error
  message, which becomes "Please upload a chart image first.": no call leaves
  the process, the stored history is not written, and the history, the result
  and the analyzing flag keep their values, whatever the analysis service or the
  store would have answered.
\<close>

theorem runAnalysis_without_image:
  assumes "image st = None \<or> image st = Some []"
  shows "runAnalysis remote outcome insert_ok st
           = st\<lparr>error := Some ''Please upload a chart image first.''\<rparr>
       \<and> calls (runAnalysis remote outcome insert_ok st) = calls st
       \<and> vertex_history (runAnalysis remote outcome insert_ok st) = vertex_history st
       \<and> history (runAnalysis remote outcome insert_ok st) = history st
       \<and> result (runAnalysis remote outcome insert_ok st) = result st
       \<and> isAnalyzing (runAnalysis remote outcome insert_ok st) = isAnalyzing st"
proof -
  have "runAnalysis remote outcome insert_ok st
          = st\<lparr>error := Some ''Please upload a chart image first.''\<rparr>"
    using assms by (auto simp: runAnalysis_def)
  then show ?thesis by simp
qed

theorem runAnalysis_without_image_witness:
  "image (initial_state None Absent Absent) = None
   \<and> runAnalysis True (Inr (example_result 1)) True (initial_state None Absent Absent)
       = (initial_state None Absent Absent)\<lparr>error := Some ''Please upload a chart image first.''\<rparr>
   \<and> calls (runAnalysis True (Inr (example_result 1)) True (initial_state None Absent Absent)) = []
   \<and> history (runAnalysis True (Inr (example_result 1)) True (initial_state None Absent Absent)) = []"
proof -
  have i: "image (initial_state None Absent Absent) = None"
    and c: "calls (initial_state None Absent Absent) = []"
    and h: "history (initial_state None Absent Absent) = []"
    by (simp_all add: initial_state_def)
  from i have "image (initial_state None Absent Absent) = None
      \<or> image (initial_state None Absent Absent) = Some []" ..
  from runAnalysis_without_image [OF this, of True "Inr (example_result 1)" True] i c h
  show ?thesis by simp
qed

section \<open>Deleting a code that is not there\<close>

lemma filter_code_absent:
  "v \<notin> code ` set cs \<Longrightarrow> filter (\<lambda>c. code c \<noteq> v) cs = cs"
  by (induction cs) auto

text \<open>
  C7. The handler is a total step: its source has no throw, and the remote client
  reports a failure by value. For a code value \<open>v\<close> that no entry of the
  collection carries, \<open>deleteCode v\<close> leaves the collection as it is in both
  modes and for both outcomes of the remote delete. In local mode the only write
  is the stored array, rewritten with the unchanged collection; in remote mode
  the only effects are the delete call and, when it fails, its error message.
\<close>

theorem deleteCode_absent_noop:
  assumes "v \<notin> code ` set (accessCodes st)"
  shows "accessCodes (deleteCode remote v delete_ok st) = accessCodes st
       \<and> deleteCode False v delete_ok st = st\<lparr>vertex_access_codes := Parsed (accessCodes st)\<rparr>
       \<and> deleteCode True v True st = st\<lparr>calls := calls st @ [DeleteAccessCode v]\<rparr>
       \<and> deleteCode True v False st
           = st\<lparr>calls := calls st @ [DeleteAccessCode v],
                error := Some ''Failed to delete code from database.''\<rparr>"
  using filter_code_absent [OF assms]
  by (simp add: deleteCode_def Let_def)

theorem deleteCode_absent_noop_witness:
  "''ZZZZ9999'' \<notin> code ` set (accessCodes ((initial_state None Absent Absent)\<lparr>accessCodes := [example_code]\<rparr>))
   \<and> accessCodes (deleteCode True ''ZZZZ9999'' True
        ((initial_state None Absent Absent)\<lparr>accessCodes := [example_code]\<rparr>)) = [example_code]
   \<and> accessCodes (deleteCode False ''ZZZZ9999'' True
        ((initial_state None Absent Absent)\<lparr>accessCodes := [example_code]\<rparr>)) = [example_code]"
proof -
  let ?st = "(initial_state None Absent Absent)\<lparr>accessCodes := [example_code]\<rparr>"
  have a: "accessCodes ?st = [example_code]" by simp
  have n: "''ZZZZ9999'' \<notin> code ` set (accessCodes ?st)"
    by (simp add: example_code_def)
  from deleteCode_absent_noop [OF n, of True True] deleteCode_absent_noop [OF n, of False True] n a
  show ?thesis by simp
qed

section \<open>Logout\<close>

lemma session_fields_runAnalysis:
  "authStatus (runAnalysis remote outcome ok st) = authStatus st
   \<and> vertex_session (runAnalysis remote outcome ok st) = vertex_session st
   \<and> loginCode (runAnalysis remote outcome ok st) = loginCode st
   \<and> adminCode (runAnalysis remote outcome ok st) = adminCode st"
  by (simp add: runAnalysis_def Let_def split: option.splits sum.splits)

lemma session_fields_clearHistory:
  "authStatus (clearHistory remote ok st) = authStatus st
   \<and> vertex_session (clearHistory remote ok st) = vertex_session st
   \<and> loginCode (clearHistory remote ok st) = loginCode st
   \<and> adminCode (clearHistory remote ok st) = adminCode st"
  by (simp add: clearHistory_def Let_def)

lemma session_fields_generateCode:
  "authStatus (generateCode remote days now random ok st) = authStatus st
   \<and> vertex_session (generateCode remote days now random ok st) = vertex_session st
   \<and> loginCode (generateCode remote days now random ok st) = loginCode st
   \<and> adminCode (generateCode remote days now random ok st) = adminCode st"
  by (simp add: generateCode_def Let_def)

lemma session_fields_deleteCode:
  "authStatus (deleteCode remote v ok st) = authStatus st
   \<and> vertex_session (deleteCode remote v ok st) = vertex_session st
   \<and> loginCode (deleteCode remote v ok st) = loginCode st
   \<and> adminCode (deleteCode remote v ok st) = adminCode st"
  by (simp add: deleteCode_def Let_def)

lemma logout_settled_step:
  assumes "logout_settled u" and "ui_step remote toUpperCase ev u = Some u'"
  shows "logout_settled u'"
proof (cases ev)
  case ClickLogout
  with assms show ?thesis
    by (auto simp: logout_settled_def logout_def split: if_splits)
next
  case ViewSwap
  with assms show ?thesis
    by (auto simp: logout_settled_def view_of_def split: if_splits)
next
  case (ClickGenerate days now random ok)
  with assms show ?thesis
    by (auto simp: logout_settled_def session_fields_generateCode split: if_splits)
next
  case (ClickDelete v ok)
  with assms show ?thesis
    by (auto simp: logout_settled_def session_fields_deleteCode split: if_splits)
next
  case (ClickAnalyze outcome ok)
  with assms show ?thesis
    by (auto simp: logout_settled_def session_fields_runAnalysis split: if_splits)
next
  case (ClickClearHistory ok)
  with assms show ?thesis
    by (auto simp: logout_settled_def session_fields_clearHistory split: if_splits)
next
  case (ChooseFile compressed)
  with assms show ?thesis
    by (auto simp: logout_settled_def handleImageUpload_def split: if_splits)
qed (use assms in \<open>auto simp: logout_settled_def split: if_splits\<close>)

lemma logout_settled_run:
  "logout_settled u \<Longrightarrow> ui_run remote toUpperCase evs u = Some u' \<Longrightarrow> logout_settled u'"
proof (induction evs arbitrary: u)
  case Nil
  then show ?case by simp
next
  case (Cons ev evs)
  from Cons.prems(2) obtain v where s: "ui_step remote toUpperCase ev u = Some v"
    and r: "ui_run remote toUpperCase evs v = Some u'"
    by (auto split: option.splits)
  from Cons.prems(1) s have "logout_settled v" by (rule logout_settled_step)
  then show ?case using r by (rule Cons.IH)
qed

lemma logout_settled_cold_start:
  "logout_settled (cold_start remote codes historyData session savedHistory savedCodes)"
  by (simp add: logout_settled_def cold_start_def)

lemma logout_noop:
  "vertex_session st = None \<Longrightarrow> loginCode st = [] \<Longrightarrow> adminCode st = [] \<Longrightarrow>
   authStatus st = Unauthorized \<Longrightarrow> logout st = st"
  by (simp add: logout_def)

text \<open>
  C8. Take any run of user actions from a cold start that ends with a logout
  control mounted (the admin panel or the user view) over a session that is
  already unauthorized. Calling \<open>logout\<close> there leaves the session marker, the
  access-code input and the master-key input as they are; it leaves the whole
  state as it is. In every state, applying \<open>logout\<close> twice gives the same state
  as applying it once.
\<close>

theorem logout_when_unauthorized_noop:
  assumes "ui_run remote toUpperCase evs
             (cold_start remote codes historyData session savedHistory savedCodes) = Some u"
    and "mounted u = AdminView \<or> mounted u = UserView"
    and "authStatus (cells u) = Unauthorized"
  shows "vertex_session (logout (cells u)) = vertex_session (cells u)
       \<and> loginCode (logout (cells u)) = loginCode (cells u)
       \<and> adminCode (logout (cells u)) = adminCode (cells u)
       \<and> logout (cells u) = cells u
       \<and> logout (logout st) = logout st"
proof -
  have "logout_settled u"
    using logout_settled_cold_start assms(1) by (rule logout_settled_run)
  with assms(2,3) have "vertex_session (cells u) = None \<and> loginCode (cells u) = []
      \<and> adminCode (cells u) = []"
    by (auto simp: logout_settled_def)
  with assms(3) have "logout (cells u) = cells u"
    by (simp add: logout_noop)
  moreover have "logout (logout st) = logout st"
    by (simp add: logout_def)
  ultimately show ?thesis by simp
qed

lemma example_logout_run:
  "\<exists>u. ui_run False toUpperCase_ascii
          [TypeLoginCode ''ab12cd34'', ClickEnter 1000000, ViewSwap, ClickLogout]
          (cold_start False None None None Absent (Parsed [example_code])) = Some u
       \<and> mounted u = UserView \<and> authStatus (cells u) = Unauthorized"
  by (simp add: cold_start_def checkSession_def fetchData_def initial_state_def
        onChange_loginCode_def handleUserLogin_def example_code_def toUpperCase_ascii_example
        view_of_def logout_def)

theorem logout_when_unauthorized_noop_witness:
  "\<exists>u. ui_run False toUpperCase_ascii
          [TypeLoginCode ''ab12cd34'', ClickEnter 1000000, ViewSwap, ClickLogout]
          (cold_start False None None None Absent (Parsed [example_code])) = Some u
       \<and> mounted u = UserView \<and> authStatus (cells u) = Unauthorized
       \<and> vertex_session (logout (cells u)) = vertex_session (cells u)
       \<and> loginCode (logout (cells u)) = loginCode (cells u)
       \<and> adminCode (logout (cells u)) = adminCode (cells u)"
proof -
  from example_logout_run obtain u where
    r: "ui_run False toUpperCase_ascii
          [TypeLoginCode ''ab12cd34'', ClickEnter 1000000, ViewSwap, ClickLogout]
          (cold_start False None None None Absent (Parsed [example_code])) = Some u"
    and m: "mounted u = UserView" and a: "authStatus (cells u) = Unauthorized"
    by blast
  from m have m': "mounted u = AdminView \<or> mounted u = UserView" ..
  from logout_when_unauthorized_noop [OF r m' a] r m a
  show ?thesis by blast
qed

section \<open>Startup in local-fallback mode\<close>

lemma history_fetchData_local:
  "vertex_history st = Parsed xs \<Longrightarrow> history (fetchData False codes historyData st) = xs"
  by (simp add: fetchData_def Let_def split: stored.splits)

text \<open>
  C9. In local-fallback mode \<open>fetchData\<close> puts the whole parsed array stored
  under \<open>vertex_history\<close> into the history, untrimmed: a stored array of more than
  20 entries gives a history of more than 20 entries. The next successful
  analysis brings the length back to at most 20, and \<open>clearHistory\<close> empties it.
\<close>

theorem fetchData_local_history_untrimmed:
  assumes "vertex_history st = Parsed xs"
  shows "history (fetchData False codes historyData st) = xs
       \<and> (20 < length xs \<longrightarrow> 20 < length (history (fetchData False codes historyData st)))
       \<and> (img \<noteq> [] \<longrightarrow>
            length (history (runAnalysis False (Inr data) insert_ok
               (handleImageUpload img (fetchData False codes historyData st)))) \<le> 20)
       \<and> history (clearHistory False delete_ok (fetchData False codes historyData st)) = []"
proof -
  have a: "history (fetchData False codes historyData st) = xs"
    using assms by (rule history_fetchData_local)
  have b: "length (history (runAnalysis False (Inr data) insert_ok
               (handleImageUpload img (fetchData False codes historyData st)))) \<le> 20"
    if "img \<noteq> []"
    using that by (simp add: history_runAnalysis_success handleImageUpload_def)
  have c: "history (clearHistory False delete_ok (fetchData False codes historyData st)) = []"
    by (simp add: history_clearHistory)
  from a b c show ?thesis by simp
qed

lemma example_length_21: "length (map example_result [0..<21]) = 21"
  by simp

theorem fetchData_local_history_untrimmed_witness:
  "vertex_history (initial_state None (Parsed (map example_result [0..<21])) Absent)
     = Parsed (map example_result [0..<21])
   \<and> length (history (fetchData False None None
        (initial_state None (Parsed (map example_result [0..<21])) Absent))) = 21
   \<and> length (history (runAnalysis False (Inr (example_result 21)) True
        (handleImageUpload ''data:image/jpeg;base64,AAAA''
           (fetchData False None None
              (initial_state None (Parsed (map example_result [0..<21])) Absent))))) \<le> 20"
proof -
  let ?st = "initial_state None (Parsed (map example_result [0..<21])) Absent"
  have v: "vertex_history ?st = Parsed (map example_result [0..<21])"
    by (simp add: initial_state_def)
  have n: "''data:image/jpeg;base64,AAAA'' \<noteq> []" by simp
  from fetchData_local_history_untrimmed
         [OF v, of None None "''data:image/jpeg;base64,AAAA''" "example_result 21" True] v n
  show ?thesis by (simp del: upt_Suc map_map)
qed

section \<open>Logins leave the collections alone\<close>

lemma handleUserLogin_frame:
  "accessCodes (handleUserLogin t st) = accessCodes st
   \<and> history (handleUserLogin t st) = history st
   \<and> vertex_access_codes (handleUserLogin t st) = vertex_access_codes st
   \<and> vertex_history (handleUserLogin t st) = vertex_history st
   \<and> calls (handleUserLogin t st) = calls st"
  by (simp add: handleUserLogin_def split: option.splits)

lemma handleAdminLogin_frame:
  "accessCodes (handleAdminLogin st) = accessCodes st
   \<and> history (handleAdminLogin st) = history st
   \<and> vertex_access_codes (handleAdminLogin st) = vertex_access_codes st
   \<and> vertex_history (handleAdminLogin st) = vertex_history st
   \<and> calls (handleAdminLogin st) = calls st"
  by (simp add: handleAdminLogin_def)

lemma accessCodes_relogin:
  "accessCodes (handleUserLogin t (onChange_loginCode toUpperCase s (logout st))) = accessCodes st"
  by (simp add: handleUserLogin_frame onChange_loginCode_def logout_def)

lemma accessCodes_fold_relogin:
  "accessCodes (fold (\<lambda>t st. handleUserLogin t (onChange_loginCode toUpperCase s (logout st))) ts st)
     = accessCodes st"
  by (induction ts arbitrary: st) (simp_all add: accessCodes_relogin)

lemma handleUserLogin_valid:
  assumes "c \<in> set (accessCodes st)" and "code c = loginCode st" and "t < expiry c"
  shows "authStatus (handleUserLogin t st) = User"
proof (cases "find (\<lambda>c. code c = loginCode st \<and> t < expiry c) (accessCodes st)")
  case None
  with assms show ?thesis by (auto simp: find_None_iff)
next
  case (Some a)
  then show ?thesis by (simp add: handleUserLogin_def)
qed

text \<open>
  C10. \<open>handleUserLogin\<close> and \<open>handleAdminLogin\<close> leave the access-code
  collection and the history as they are, whether the login succeeds or fails.
  A code is not used up: for a code \<open>c\<close> of the collection and any non-empty
  sequence of login times before \<open>expiry c\<close>, logging out, typing the code and
  logging in again succeeds every time, and the collection is still the same.
\<close>

theorem login_leaves_collections:
  "accessCodes (handleUserLogin t st) = accessCodes st
   \<and> history (handleUserLogin t st) = history st
   \<and> accessCodes (handleAdminLogin st) = accessCodes st
   \<and> history (handleAdminLogin st) = history st
   \<and> (c \<in> set (accessCodes st) \<and> toUpperCase s = code c \<and> ts \<noteq> []
        \<and> (\<forall>t \<in> set ts. t < expiry c) \<longrightarrow>
      authStatus (fold (\<lambda>t st. handleUserLogin t (onChange_loginCode toUpperCase s (logout st)))
                    ts st) = User
      \<and> accessCodes (fold (\<lambda>t st. handleUserLogin t (onChange_loginCode toUpperCase s (logout st)))
                    ts st) = accessCodes st)"
proof -
  let ?f = "\<lambda>t st. handleUserLogin t (onChange_loginCode toUpperCase s (logout st))"
  have again: "authStatus (fold ?f ts st) = User"
    if c: "c \<in> set (accessCodes st)" and s: "toUpperCase s = code c" and ne: "ts \<noteq> []"
      and t: "\<forall>t \<in> set ts. t < expiry c"
  proof -
    from ne obtain ys y where ts: "ts = ys @ [y]"
      by (cases ts rule: rev_cases) auto
    let ?st = "onChange_loginCode toUpperCase s (logout (fold ?f ys st))"
    have "accessCodes ?st = accessCodes (fold ?f ys st)"
      by (simp add: onChange_loginCode_def logout_def)
    also have "\<dots> = accessCodes st"
      by (rule accessCodes_fold_relogin)
    finally have "accessCodes ?st = accessCodes st" .
    with c have "c \<in> set (accessCodes ?st)" by simp
    moreover have "code c = loginCode ?st"
      using s by (simp add: onChange_loginCode_def)
    moreover have "y < expiry c" using t ts by simp
    ultimately have "authStatus (handleUserLogin y ?st) = User"
      by (rule handleUserLogin_valid)
    then show ?thesis by (simp add: ts)
  qed
  from again handleUserLogin_frame [of t st] handleAdminLogin_frame [of st]
    accessCodes_fold_relogin [of toUpperCase s ts st]
  show ?thesis by blast
qed

theorem login_leaves_collections_witness:
  "example_code \<in> set (accessCodes ((initial_state None Absent Absent)\<lparr>accessCodes := [example_code]\<rparr>))
   \<and> toUpperCase_ascii ''ab12cd34'' = code example_code
   \<and> 3000000 < expiry example_code
   \<and> authStatus (fold (\<lambda>t st. handleUserLogin t
         (onChange_loginCode toUpperCase_ascii ''ab12cd34'' (logout st)))
       [1000000, 2000000, 3000000]
       ((initial_state None Absent Absent)\<lparr>accessCodes := [example_code]\<rparr>)) = User
   \<and> accessCodes (fold (\<lambda>t st. handleUserLogin t
         (onChange_loginCode toUpperCase_ascii ''ab12cd34'' (logout st)))
       [1000000, 2000000, 3000000]
       ((initial_state None Absent Absent)\<lparr>accessCodes := [example_code]\<rparr>)) = [example_code]"
proof -
  let ?st = "(initial_state None Absent Absent)\<lparr>accessCodes := [example_code]\<rparr>"
  have a: "accessCodes ?st = [example_code]" by simp
  have c: "example_code \<in> set (accessCodes ?st)" by simp
  have s: "toUpperCase_ascii ''ab12cd34'' = code example_code"
    by (simp add: toUpperCase_ascii_example example_code_def)
  have t: "\<forall>t \<in> set [1000000, 2000000, 3000000]. t < expiry example_code"
    by (simp add: example_code_def)
  have n: "[1000000, 2000000, 3000000 :: rat] \<noteq> []" by simp
  let ?f = "\<lambda>t st. handleUserLogin t (onChange_loginCode toUpperCase_ascii ''ab12cd34'' (logout st))"
  from login_leaves_collections
         [of 0 ?st example_code toUpperCase_ascii "''ab12cd34''" "[1000000, 2000000, 3000000]"]
       c s t n
  have r: "authStatus (fold ?f [1000000, 2000000, 3000000] ?st) = User
         \<and> accessCodes (fold ?f [1000000, 2000000, 3000000] ?st) = accessCodes ?st"
    by blast
  then have "accessCodes (fold ?f [1000000, 2000000, 3000000] ?st) = [example_code]"
    by (simp only: a)
  moreover have "3000000 < expiry example_code"
    by (simp add: example_code_def)
  ultimately show ?thesis using c s r by blast
qed

end
